theory Spec2Isabelle
  imports Complex_Main
begin

section \<open>Numbers\<close>

text \<open>
  The program computes with JavaScript numbers. Rounding and overflow are not modelled:
  a finite number is a \<open>real\<close> and arithmetic on finite numbers is exact. The values
  a profile and the tunables hold (altitudes, temperatures, wind, absolute humidity,
  resolution, solar strength) are finite and are modelled as \<open>real\<close>. Quantities that the
  program obtains through a division whose divisor can be zero or through \<open>Math.log\<close> can
  be \<open>Infinity\<close>, \<open>-Infinity\<close> or \<open>NaN\<close>; they have the type \<open>jsnum\<close>, whose
  operations follow IEEE 754 on the special values. Every zero divisor in the program
  is the result of an addition or subtraction, hence \<open>+0\<close>, and the model divides by
  zero accordingly.
\<close>

datatype jsnum = Fin real | PInf | NInf | NaN

instantiation jsnum :: "{uminus, plus, minus, times, inverse, ord}"
begin

fun uminus_jsnum :: "jsnum \<Rightarrow> jsnum" where
  "uminus_jsnum (Fin x) = Fin (- x)"
| "uminus_jsnum PInf = NInf"
| "uminus_jsnum NInf = PInf"
| "uminus_jsnum NaN = NaN"

fun plus_jsnum :: "jsnum \<Rightarrow> jsnum \<Rightarrow> jsnum" where
  "plus_jsnum NaN b = NaN"
| "plus_jsnum a NaN = NaN"
| "plus_jsnum (Fin x) (Fin y) = Fin (x + y)"
| "plus_jsnum PInf NInf = NaN"
| "plus_jsnum NInf PInf = NaN"
| "plus_jsnum PInf b = PInf"
| "plus_jsnum NInf b = NInf"
| "plus_jsnum (Fin x) b = b"

definition minus_jsnum :: "jsnum \<Rightarrow> jsnum \<Rightarrow> jsnum" where
  "minus_jsnum a b = a + (- b)"

fun times_jsnum :: "jsnum \<Rightarrow> jsnum \<Rightarrow> jsnum" where
  "times_jsnum NaN b = NaN"
| "times_jsnum a NaN = NaN"
| "times_jsnum (Fin x) (Fin y) = Fin (x * y)"
| "times_jsnum (Fin x) b = (if x = 0 then NaN else if 0 < x then b else - b)"
| "times_jsnum a (Fin y) = (if y = 0 then NaN else if 0 < y then a else - a)"
| "times_jsnum PInf b = b"
| "times_jsnum NInf b = - b"

fun divide_jsnum :: "jsnum \<Rightarrow> jsnum \<Rightarrow> jsnum" where
  "divide_jsnum NaN b = NaN"
| "divide_jsnum a NaN = NaN"
| "divide_jsnum (Fin x) (Fin y) =
     (if y = 0 then (if x = 0 then NaN else if 0 < x then PInf else NInf)
      else Fin (x / y))"
| "divide_jsnum (Fin x) b = Fin 0"
| "divide_jsnum a (Fin y) = (if 0 \<le> y then a else - a)"
| "divide_jsnum a b = NaN"

definition inverse_jsnum :: "jsnum \<Rightarrow> jsnum" where
  "inverse_jsnum a = divide (Fin 1) a"

fun less_jsnum :: "jsnum \<Rightarrow> jsnum \<Rightarrow> bool" where
  "less_jsnum NaN b = False"
| "less_jsnum a NaN = False"
| "less_jsnum (Fin x) (Fin y) = (x < y)"
| "less_jsnum a PInf = (a \<noteq> PInf)"
| "less_jsnum NInf b = (b \<noteq> NInf)"
| "less_jsnum a b = False"

fun less_eq_jsnum :: "jsnum \<Rightarrow> jsnum \<Rightarrow> bool" where
  "less_eq_jsnum NaN b = False"
| "less_eq_jsnum a NaN = False"
| "less_eq_jsnum (Fin x) (Fin y) = (x \<le> y)"
| "less_eq_jsnum a PInf = True"
| "less_eq_jsnum NInf b = True"
| "less_eq_jsnum a b = False"

instance ..

end

text \<open>Strict equality \<open>===\<close> of two numbers: \<open>NaN\<close> equals nothing.\<close>

definition js_eq :: "jsnum \<Rightarrow> jsnum \<Rightarrow> bool" where
  "js_eq a b = (a \<noteq> NaN \<and> b \<noteq> NaN \<and> a = b)"

text \<open>\<open>Math.log\<close>.\<close>

fun js_log :: "jsnum \<Rightarrow> jsnum" where
  "js_log (Fin x) = (if x < 0 then NaN else if x = 0 then NInf else Fin (ln x))"
| "js_log PInf = PInf"
| "js_log NInf = NaN"
| "js_log NaN = NaN"

text \<open>\<open>Math.pow\<close> at a finite, positive exponent that is not an integer.\<close>

fun js_pow :: "jsnum \<Rightarrow> real \<Rightarrow> jsnum" where
  "js_pow (Fin b) y = (if b < 0 then NaN else Fin (b powr y))"
| "js_pow PInf y = PInf"
| "js_pow NInf y = PInf"
| "js_pow NaN y = NaN"

section \<open>Constants and tunables\<close>

definition calculationsMaxHeight :: real where
  "calculationsMaxHeight = 10000"

definition thermalInitialImpulse :: real where
  "thermalInitialImpulse = 1.8"

definition thermalStagnantGradient :: real where
  "thermalStagnantGradient = - 0.39"

definition thermalImpulseTangentRatio :: real where
  "thermalImpulseTangentRatio = 0.4"

definition condensationCompensation :: real where
  "condensationCompensation = 0.38"

definition inversionCompensation :: real where
  "inversionCompensation = 2.5"

text \<open>The module-level variables the core reads.\<close>

record config =
  calculationResolution :: real
  groundPressure :: real
  defaultGroundAbsoluteHumidity :: real
  solarStrength :: real

definition defaultConfig :: config where
  "defaultConfig = \<lparr>calculationResolution = 100, groundPressure = 101325,
     defaultGroundAbsoluteHumidity = 10, solarStrength = 0.8\<rparr>"

section \<open>Meteorological calculations\<close>

definition getPressureAtAltitude :: "real \<Rightarrow> real \<Rightarrow> real \<Rightarrow> jsnum" where
  "getPressureAtAltitude groundP altitude temperature =
     Fin groundP *
     js_pow (Fin 1 - Fin (0.0065 * altitude) / Fin (temperature + 0.0065 * altitude + 273.15))
       5.257"

definition getSaturatedDensityFor :: "real \<Rightarrow> real" where
  "getSaturatedDensityFor temperature =
     5.018 + 0.32321 * temperature + 8.1847 * 0.001 * temperature * temperature
       + 3.1243 * 0.0001 * temperature ^ 3"

definition getRelativeHumidity :: "real \<Rightarrow> real \<Rightarrow> jsnum \<Rightarrow> real \<Rightarrow> jsnum" where
  "getRelativeHumidity absolute altitude pressure temperature =
     Fin absolute / Fin (getSaturatedDensityFor temperature)"

definition getDewPoint :: "real \<Rightarrow> jsnum \<Rightarrow> jsnum" where
  "getDewPoint temperature relativeHumidity =
     (let H = (js_log (relativeHumidity * Fin 100) / Fin (ln 10) - Fin 2) / Fin 0.4343
                + Fin (17.62 * temperature) / Fin (243.12 + temperature)
      in Fin 243.12 * H / (Fin 17.62 - H))"

section \<open>The weather stack\<close>

record MeteoData =
  alt :: real
  temp :: real
  wind :: real
  humidity :: real
  dewPoint :: jsnum

text \<open>The property names that the callers of \<open>getDataAt\<close> and \<open>setDataAt\<close> pass.\<close>

datatype field = Temp | Wind | Humidity

fun getField :: "field \<Rightarrow> MeteoData \<Rightarrow> real" where
  "getField Temp d = temp d"
| "getField Wind d = wind d"
| "getField Humidity d = humidity d"

fun setField :: "field \<Rightarrow> real \<Rightarrow> MeteoData \<Rightarrow> MeteoData" where
  "setField Temp v d = d\<lparr>temp := v\<rparr>"
| "setField Wind v d = d\<lparr>wind := v\<rparr>"
| "setField Humidity v d = d\<lparr>humidity := v\<rparr>"

text \<open>
  Reading a property of \<open>undefined\<close> throws a \<open>TypeError\<close>; it is the only exception
  the core can raise.
\<close>

datatype error = TypeError

text \<open>
  The loop of \<open>getDataAt\<close> either returns from inside (\<open>Found\<close>) or ends, by
  exhaustion or by \<open>break\<close>, with the variables \<open>below\<close> and \<open>above\<close>, each of which
  may still be \<open>undefined\<close> (\<open>None\<close>). The program's \<open>curr\<close> and \<open>above\<close> are
  written \<open>cur\<close> and \<open>above'\<close>, and \<open>temp\<close> inside the loop of the thermal is
  \<open>tmp\<close>. The last branch of the loop is taken by no real number; it is the
  program's.
\<close>

datatype scan = Found MeteoData | Ended "MeteoData option" "MeteoData option"

fun getDataAt_loop :: "MeteoData list \<Rightarrow> real \<Rightarrow> MeteoData option \<Rightarrow> scan" where
  "getDataAt_loop [] altitude below = Ended below None"
| "getDataAt_loop (cur # rest) altitude below =
     (if alt cur = altitude then Found cur
      else if alt cur < altitude then getDataAt_loop rest altitude (Some cur)
      else if alt cur > altitude then Ended below (Some cur)
      else getDataAt_loop rest altitude below)"

definition getDataAt :: "MeteoData list \<Rightarrow> real \<Rightarrow> field \<Rightarrow> error + real" where
  "getDataAt weatherStack altitude fieldName =
     (case getDataAt_loop weatherStack altitude None of
        Found cur \<Rightarrow> Inr (getField fieldName cur)
      | Ended None above' \<Rightarrow> Inl TypeError
      | Ended (Some below) None \<Rightarrow> Inl TypeError
      | Ended (Some below) (Some above') \<Rightarrow>
          Inr (getField fieldName below
               + ((altitude - alt below) / (alt above' - alt below))
                 * (getField fieldName above' - getField fieldName below)))"

definition getTemperatureAt :: "MeteoData list \<Rightarrow> real \<Rightarrow> error + real" where
  "getTemperatureAt weatherStack altitude = getDataAt weatherStack altitude Temp"

definition getWindAt :: "MeteoData list \<Rightarrow> real \<Rightarrow> error + real" where
  "getWindAt weatherStack altitude = getDataAt weatherStack altitude Wind"

definition getAbsoluteHumidityAt :: "MeteoData list \<Rightarrow> real \<Rightarrow> error + real" where
  "getAbsoluteHumidityAt weatherStack altitude = getDataAt weatherStack altitude Humidity"

definition getDewPointAt :: "config \<Rightarrow> MeteoData list \<Rightarrow> real \<Rightarrow> error + jsnum" where
  "getDewPointAt cfg weatherStack altitude =
     (case getTemperatureAt weatherStack altitude of
        Inl e \<Rightarrow> Inl e
      | Inr temperature \<Rightarrow>
          (case getAbsoluteHumidityAt weatherStack altitude of
             Inl e \<Rightarrow> Inl e
           | Inr ah \<Rightarrow>
               Inr (getDewPoint temperature
                     (getRelativeHumidity ah altitude
                        (getPressureAtAltitude (groundPressure cfg) altitude temperature)
                        temperature))))"

text \<open>The two constructors of a sample.\<close>

definition new_MeteoData :: "config \<Rightarrow> real \<Rightarrow> real \<Rightarrow> real \<Rightarrow> real \<Rightarrow> MeteoData" where
  "new_MeteoData cfg altitude temperature wnd hum =
     \<lparr>alt = altitude, temp = temperature, wind = wnd, humidity = hum,
      dewPoint = getDewPoint temperature
        (getRelativeHumidity hum altitude
           (getPressureAtAltitude (groundPressure cfg) altitude temperature) temperature)\<rparr>"

definition AutoMeteoData :: "config \<Rightarrow> MeteoData list \<Rightarrow> real \<Rightarrow> error + MeteoData" where
  "AutoMeteoData cfg weatherStack altitude =
     (case getTemperatureAt weatherStack altitude of
        Inl e \<Rightarrow> Inl e
      | Inr t \<Rightarrow>
          (case getWindAt weatherStack altitude of
             Inl e \<Rightarrow> Inl e
           | Inr w \<Rightarrow>
               (case getAbsoluteHumidityAt weatherStack altitude of
                  Inl e \<Rightarrow> Inl e
                | Inr h \<Rightarrow>
                    (case getDewPointAt cfg weatherStack altitude of
                       Inl e \<Rightarrow> Inl e
                     | Inr d \<Rightarrow>
                         Inr \<lparr>alt = altitude, temp = t, wind = w, humidity = h,
                              dewPoint = d\<rparr>))))"

text \<open>
  The loop of \<open>setDataAt\<close> returns from inside after the assignment at index \<open>i\<close>
  (\<open>Hit i\<close>) or ends with the variable \<open>below\<close>, an index or \<open>undefined\<close>.
\<close>

datatype set_scan = Hit nat | Miss "nat option"

fun setDataAt_loop :: "MeteoData list \<Rightarrow> nat \<Rightarrow> real \<Rightarrow> nat option \<Rightarrow> set_scan" where
  "setDataAt_loop [] i altitude below = Miss below"
| "setDataAt_loop (cur # rest) i altitude below =
     (if alt cur = altitude then Hit i
      else if alt cur < altitude then setDataAt_loop rest (Suc i) altitude (Some i)
      else if alt cur > altitude then Miss below
      else setDataAt_loop rest (Suc i) altitude below)"

text \<open>
  \<open>weatherStack.splice(below, 0, newField)\<close> puts \<open>newField\<close> in front of the element
  at index \<open>below\<close>; an \<open>undefined\<close> start index counts as 0.
\<close>

definition splice_in :: "nat option \<Rightarrow> 'a \<Rightarrow> 'a list \<Rightarrow> 'a list" where
  "splice_in below newField xs =
     (case below of
        None \<Rightarrow> newField # xs
      | Some b \<Rightarrow> take b xs @ newField # drop b xs)"

text \<open>
  \<open>setDataAt\<close> returns the weather stack it leaves behind, and the exception if it
  throws.
\<close>

definition setDataAt ::
  "config \<Rightarrow> MeteoData list \<Rightarrow> real \<Rightarrow> field \<Rightarrow> real \<Rightarrow> MeteoData list \<times> error option" where
  "setDataAt cfg weatherStack altitude fieldName v =
     (case setDataAt_loop weatherStack 0 altitude None of
        Hit i \<Rightarrow> (weatherStack[i := setField fieldName v (weatherStack ! i)], None)
      | Miss below \<Rightarrow>
          (case AutoMeteoData cfg weatherStack altitude of
             Inl e \<Rightarrow> (weatherStack, Some e)
           | Inr newField \<Rightarrow>
               (splice_in below (setField fieldName v newField) weatherStack, None)))"

section \<open>The thermal\<close>

record level =
  l_alt :: real
  l_temp :: real
  relHumi :: jsnum

record ThermalData =
  thermalTop :: real
  cloudBase :: jsnum
  strength :: "(real \<times> real) list"

text \<open>
  One pass through the body of the loop of \<open>getThermalData\<close>, after the temperature
  was read and up to \<open>data.strength.push\<close>: the new \<open>cur\<close>, \<open>impulse\<close> and \<open>data\<close>.
  A \<open>strength\<close> entry is the pair of its \<open>altitude\<close> and its \<open>impulse\<close>.
\<close>

definition thermalStep ::
  "config \<Rightarrow> real \<Rightarrow> real \<Rightarrow> level \<Rightarrow> real \<Rightarrow> ThermalData \<Rightarrow> level \<times> real \<times> ThermalData" where
  "thermalStep cfg altitude tmp prev impulse data =
     (let cur = \<lparr>l_alt = altitude, l_temp = tmp,
                 relHumi = getRelativeHumidity (defaultGroundAbsoluteHumidity cfg) altitude
                   (getPressureAtAltitude (groundPressure cfg) altitude tmp) tmp\<rparr>;
          gradient = (l_temp cur - l_temp prev) * (calculationResolution cfg / 100);
          data1 =
            (if relHumi cur \<ge> Fin 1 \<and> js_eq (cloudBase data) (Fin calculationsMaxHeight)
             then data\<lparr>cloudBase :=
               Fin (l_alt prev)
                 + ((Fin 1 - relHumi prev) / (relHumi cur - relHumi prev))
                   * Fin (l_alt cur - l_alt prev)\<rparr>
             else data);
          compensationOffset =
            (if Fin altitude < cloudBase data1 then 0
             else (l_alt cur - l_alt prev) * (condensationCompensation / 100));
          compensationMulti = (if gradient < 0 then 1 else inversionCompensation);
          impulse1 = impulse
            + ((thermalStagnantGradient - gradient) * thermalImpulseTangentRatio
                 * compensationMulti - compensationOffset)
      in (cur, impulse1, data1\<lparr>strength := strength data1 @ [(l_alt cur, impulse1)]\<rparr>))"

text \<open>
  The loop, entered at its test. It need not end (a resolution of zero or less), so
  not returning is the value \<open>None\<close>; \<open>Some (Inl e)\<close> is an exception.
\<close>

partial_function (option) thermalLoop ::
  "config \<Rightarrow> MeteoData list \<Rightarrow> real \<Rightarrow> level \<Rightarrow> real \<Rightarrow> ThermalData
     \<Rightarrow> (error + ThermalData) option" where
  "thermalLoop cfg weatherStack altitude prev impulse data =
     (if altitude < calculationsMaxHeight then
        (case getTemperatureAt weatherStack altitude of
           Inl e \<Rightarrow> Some (Inl e)
         | Inr tmp \<Rightarrow>
             (case thermalStep cfg altitude tmp prev impulse data of
                (cur, impulse1, data1) \<Rightarrow>
                  if impulse1 < 0 then Some (Inr (data1\<lparr>thermalTop := altitude\<rparr>))
                  else thermalLoop cfg weatherStack (altitude + calculationResolution cfg)
                         cur impulse1 data1))
      else Some (Inr data))"

definition getThermalData :: "config \<Rightarrow> MeteoData list \<Rightarrow> (error + ThermalData) option" where
  "getThermalData cfg weatherStack =
     (case getTemperatureAt weatherStack 0 of
        Inl e \<Rightarrow> Some (Inl e)
      | Inr t0 \<Rightarrow>
          thermalLoop cfg weatherStack (calculationResolution cfg)
            \<lparr>l_alt = 0, l_temp = t0,
             relHumi = getRelativeHumidity (defaultGroundAbsoluteHumidity cfg) 0
               (Fin (groundPressure cfg)) t0\<rparr>
            ((solarStrength cfg * 1.2 - 0.1) * thermalInitialImpulse)
            \<lparr>thermalTop = calculationsMaxHeight, cloudBase = Fin calculationsMaxHeight,
             strength = []\<rparr>)"

section \<open>The steps of a run, as the specification describes them\<close>

text \<open>
  The \<open>k\<close>-th step of the integration is at the altitude \<open>k\<close> times the resolution;
  step 0 is the ground. \<open>stepTemperature\<close> is the temperature the profile yields there
  (it is only used where the profile does yield one).
\<close>

definition stepAltitude :: "config \<Rightarrow> nat \<Rightarrow> real" where
  "stepAltitude cfg k = real k * calculationResolution cfg"

definition stepTemperature :: "config \<Rightarrow> MeteoData list \<Rightarrow> nat \<Rightarrow> real" where
  "stepTemperature cfg weatherStack k =
     (case getTemperatureAt weatherStack (stepAltitude cfg k) of Inr t \<Rightarrow> t | Inl e \<Rightarrow> 0)"

text \<open>
  The relative humidity of the thermal at step \<open>k\<close>, for the temperatures \<open>T\<close> of the
  steps: the ground absolute humidity over the saturated density.
\<close>

definition stepHumidity :: "config \<Rightarrow> (nat \<Rightarrow> real) \<Rightarrow> nat \<Rightarrow> jsnum" where
  "stepHumidity cfg T k =
     Fin (defaultGroundAbsoluteHumidity cfg) / Fin (getSaturatedDensityFor (T k))"

text \<open>
  The altitude between step \<open>k\<close> and step \<open>k + 1\<close> at which the relative humidity,
  interpolated linearly, is 1.
\<close>

definition crossing :: "config \<Rightarrow> (nat \<Rightarrow> real) \<Rightarrow> nat \<Rightarrow> jsnum" where
  "crossing cfg T k =
     Fin (stepAltitude cfg k)
       + ((Fin 1 - stepHumidity cfg T k) / (stepHumidity cfg T (Suc k) - stepHumidity cfg T k))
         * Fin (stepAltitude cfg (Suc k) - stepAltitude cfg k)"

text \<open>The cloud base as it is known after step \<open>k\<close>.\<close>

fun cloudBaseAt :: "config \<Rightarrow> (nat \<Rightarrow> real) \<Rightarrow> nat \<Rightarrow> jsnum" where
  "cloudBaseAt cfg T 0 = Fin calculationsMaxHeight"
| "cloudBaseAt cfg T (Suc k) =
     (if stepHumidity cfg T (Suc k) \<ge> Fin 1
         \<and> js_eq (cloudBaseAt cfg T k) (Fin calculationsMaxHeight)
      then crossing cfg T k
      else cloudBaseAt cfg T k)"

text \<open>The impulse after step \<open>k\<close>: its initial value and the increment of each step.\<close>

fun impulseAt :: "config \<Rightarrow> (nat \<Rightarrow> real) \<Rightarrow> nat \<Rightarrow> real" where
  "impulseAt cfg T 0 = (solarStrength cfg * 1.2 - 0.1) * thermalInitialImpulse"
| "impulseAt cfg T (Suc k) =
     (let gradient = (T (Suc k) - T k) * (calculationResolution cfg / 100);
          compensationMulti = (if gradient < 0 then 1 else inversionCompensation);
          compensationOffset =
            (if Fin (stepAltitude cfg (Suc k)) < cloudBaseAt cfg T (Suc k) then 0
             else calculationResolution cfg * (condensationCompensation / 100))
      in impulseAt cfg T k
           + ((thermalStagnantGradient - gradient) * thermalImpulseTangentRatio
                * compensationMulti - compensationOffset))"

text \<open>
  The state of the loop after \<open>k\<close> steps none of which ended the run: the previous
  level, and the data collected so far.
\<close>

definition specLevel :: "config \<Rightarrow> (nat \<Rightarrow> real) \<Rightarrow> nat \<Rightarrow> level" where
  "specLevel cfg T k =
     \<lparr>l_alt = stepAltitude cfg k, l_temp = T k, relHumi = stepHumidity cfg T k\<rparr>"

definition specData :: "config \<Rightarrow> (nat \<Rightarrow> real) \<Rightarrow> nat \<Rightarrow> ThermalData" where
  "specData cfg T k =
     \<lparr>thermalTop = calculationsMaxHeight, cloudBase = cloudBaseAt cfg T k,
      strength = map (\<lambda>j. (stepAltitude cfg j, impulseAt cfg T j)) [1..<Suc k]\<rparr>"

text \<open>
  \<open>ranSteps cfg ws k n data\<close>: a run that is past step \<open>k\<close> goes on to step \<open>n\<close> and
  returns \<open>data\<close> there. The profile yields a temperature at each of these steps, all of
  them below the ceiling; no step before \<open>n\<close> has a negative impulse; and either step
  \<open>n\<close> has one and is the thermal top, or the step after \<open>n\<close> is not below the ceiling.
\<close>

definition ranSteps :: "config \<Rightarrow> MeteoData list \<Rightarrow> nat \<Rightarrow> nat \<Rightarrow> ThermalData \<Rightarrow> bool" where
  "ranSteps cfg ws k n data =
     (let T = stepTemperature cfg ws in
      (\<forall>j. k < j \<and> j \<le> n \<longrightarrow>
         getTemperatureAt ws (stepAltitude cfg j) = Inr (T j)
         \<and> stepAltitude cfg j < calculationsMaxHeight)
      \<and> (\<forall>j. k < j \<and> j < n \<longrightarrow> \<not> impulseAt cfg T j < 0)
      \<and> ((k < n \<and> impulseAt cfg T n < 0
           \<and> data = (specData cfg T n)\<lparr>thermalTop := stepAltitude cfg n\<rparr>)
         \<or> ((k < n \<longrightarrow> \<not> impulseAt cfg T n < 0)
            \<and> \<not> stepAltitude cfg (Suc n) < calculationsMaxHeight
            \<and> data = specData cfg T n)))"

section \<open>Profiles and runs used as examples\<close>

text \<open>The weather stack the program starts with.\<close>

definition defaultGroundTemperature :: real where
  "defaultGroundTemperature = 25"

definition defaultTemperatureGradient :: real where
  "defaultTemperatureGradient = 0.7"

definition defaultWeather :: "MeteoData list" where
  "defaultWeather =
     [new_MeteoData defaultConfig 0 defaultGroundTemperature 0
        (defaultGroundAbsoluteHumidity defaultConfig),
      new_MeteoData defaultConfig 9500
        (defaultGroundTemperature - (9500 / 100) * defaultTemperatureGradient) 0 1,
      new_MeteoData defaultConfig calculationsMaxHeight (- 20) 0 0.5]"

text \<open>
  A weak sun over dry air with a ground inversion: the impulse starts at 0.414, the
  first 100 m take exactly that much, and the next 100 m take the impulse below zero.
  The data of the run follow.
\<close>

definition inversionConfig :: config where
  "inversionConfig =
     defaultConfig\<lparr>defaultGroundAbsoluteHumidity := 0, solarStrength := 0.275\<rparr>"

definition inversionWeather :: "MeteoData list" where
  "inversionWeather =
     [new_MeteoData inversionConfig 0 0 0 0,
      new_MeteoData inversionConfig 100 0.024 0 0,
      new_MeteoData inversionConfig 200 40 0 0,
      new_MeteoData inversionConfig 10000 (- 20) 0 0]"

definition inversionRun :: ThermalData where
  "inversionRun =
     \<lparr>thermalTop = 200, cloudBase = Fin 10000, strength = [(100, 0), (200, - 40.366)]\<rparr>"

text \<open>
  Air that saturates within the first 100 m under an inversion that stops the thermal
  at 200 m, and the data of its run.
\<close>

definition humidWeather :: "MeteoData list" where
  "humidWeather =
     [new_MeteoData defaultConfig 0 12 0 10,
      new_MeteoData defaultConfig 100 11 0 10,
      new_MeteoData defaultConfig 200 20 0 10,
      new_MeteoData defaultConfig 10000 (- 20) 0 0.5]"

definition humidRun :: ThermalData where
  "humidRun =
     \<lparr>thermalTop = 200,
      cloudBase =
        Fin ((1 - 10 / getSaturatedDensityFor 12)
             / (10 / getSaturatedDensityFor 11 - 10 / getSaturatedDensityFor 12) * 100),
      strength = [(100, 1.412), (200, - 8.358)]\<rparr>"

text \<open>
  Dry air that cools by 0.7 degrees every 100 m up to the ceiling: the impulse grows
  at every step.
\<close>

definition dryConfig :: config where
  "dryConfig = defaultConfig\<lparr>defaultGroundAbsoluteHumidity := 0\<rparr>"

definition unstableWeather :: "MeteoData list" where
  "unstableWeather =
     [new_MeteoData dryConfig 0 25 0 0, new_MeteoData dryConfig 10000 (- 45) 0 0]"

definition unstableRun :: ThermalData where
  "unstableRun =
     \<lparr>thermalTop = 10000, cloudBase = Fin 10000,
      strength = map (\<lambda>k. (100 * real k, 1.548 + 0.124 * real k)) [1..<100]\<rparr>"

text \<open>A ground sample whose air is exactly saturated.\<close>

definition saturatedWeather :: "MeteoData list" where
  "saturatedWeather =
     [new_MeteoData defaultConfig 0 0 0 5.018, new_MeteoData defaultConfig 10000 (- 20) 0 0.5]"

section \<open>Evaluation\<close>

lemmas formula_defs = getRelativeHumidity_def getSaturatedDensityFor_def calculationsMaxHeight_def
  thermalInitialImpulse_def thermalStagnantGradient_def thermalImpulseTangentRatio_def
  condensationCompensation_def inversionCompensation_def js_eq_def minus_jsnum_def
  power3_eq_cube

lemmas profile_defs = new_MeteoData_def defaultConfig_def getDataAt_def getTemperatureAt_def
  getWindAt_def getAbsoluteHumidityAt_def defaultGroundTemperature_def
  defaultTemperatureGradient_def

lemmas run_defs = getThermalData_def thermalStep_def thermalLoop.simps Let_def

lemmas step_defs = stepTemperature_def stepAltitude_def stepHumidity_def crossing_def

declare impulseAt.simps [simp del] cloudBaseAt.simps [simp del]

section \<open>Queries\<close>

lemma getDataAt_loop_all_above:
  "\<forall>c\<in>set ws. a < alt c \<Longrightarrow> \<exists>ab. getDataAt_loop ws a None = Ended None ab"
  by (cases ws) auto

lemma getDataAt_loop_all_below:
  "\<forall>c\<in>set ws. alt c < a \<Longrightarrow> \<exists>b'. getDataAt_loop ws a b = Ended b' None"
  by (induction ws arbitrary: b) auto

lemma getDataAt_outside:
  assumes "(\<forall>c\<in>set ws. a < alt c) \<or> (\<forall>c\<in>set ws. alt c < a)"
  shows "getDataAt ws a f = Inl TypeError"
  using assms getDataAt_loop_all_above[of ws a] getDataAt_loop_all_below[of ws a None]
  by (auto simp: getDataAt_def split: option.splits)

lemma getDataAt_loop_exact:
  "sorted_wrt (<) (map alt ws) \<Longrightarrow> i < length ws \<Longrightarrow> alt (ws ! i) = a
   \<Longrightarrow> getDataAt_loop ws a b = Found (ws ! i)"
proof (induction ws arbitrary: i b)
  case Nil
  then show ?case by simp
next
  case (Cons c cs)
  show ?case
  proof (cases i)
    case 0
    with Cons.prems show ?thesis by simp
  next
    case (Suc j)
    with Cons.prems have "alt c < alt (cs ! j)" by auto
    with Cons Suc show ?thesis by auto
  qed
qed

lemma getDataAt_loop_between:
  "sorted_wrt (<) (map alt ws) \<Longrightarrow> Suc i < length ws \<Longrightarrow> alt (ws ! i) < a
   \<Longrightarrow> a < alt (ws ! Suc i)
   \<Longrightarrow> getDataAt_loop ws a b = Ended (Some (ws ! i)) (Some (ws ! Suc i))"
proof (induction ws arbitrary: i b)
  case Nil
  then show ?case by simp
next
  case (Cons c cs)
  show ?case
  proof (cases i)
    case 0
    with Cons.prems show ?thesis by (cases cs) auto
  next
    case (Suc j)
    with Cons.prems have "alt c < alt (cs ! j)" and "alt (cs ! j) < a" by auto
    then have "alt c < a" by simp
    with Cons Suc show ?thesis by auto
  qed
qed

text \<open>
  Where \<open>getDataAt\<close> interpolates, the divisor \<open>above.alt - below.alt\<close> is positive on
  every weather stack, sorted or not: the division never is one by zero.
\<close>

lemma getDataAt_loop_bounds:
  "getDataAt_loop ws a b = Ended (Some lo) (Some hi) \<Longrightarrow> (\<forall>x. b = Some x \<longrightarrow> alt x < a)
   \<Longrightarrow> alt lo < a \<and> a < alt hi"
  by (induction ws arbitrary: b) (auto split: if_splits)

lemma getDataAt_divisor_positive:
  "getDataAt_loop ws a None = Ended (Some lo) (Some hi) \<Longrightarrow> 0 < alt hi - alt lo"
  using getDataAt_loop_bounds[of ws a None lo hi] by simp

lemma setDataAt_loop_exact:
  "sorted_wrt (<) (map alt ws) \<Longrightarrow> i < length ws \<Longrightarrow> alt (ws ! i) = a
   \<Longrightarrow> setDataAt_loop ws k a b = Hit (k + i)"
proof (induction ws arbitrary: i b k)
  case Nil
  then show ?case by simp
next
  case (Cons c cs)
  show ?case
  proof (cases i)
    case 0
    with Cons.prems show ?thesis by simp
  next
    case (Suc j)
    with Cons.prems have "alt c < alt (cs ! j)" by auto
    with Cons Suc show ?thesis by auto
  qed
qed

lemma setDataAt_loop_between:
  "sorted_wrt (<) (map alt ws) \<Longrightarrow> Suc i < length ws \<Longrightarrow> alt (ws ! i) < a
   \<Longrightarrow> a < alt (ws ! Suc i)
   \<Longrightarrow> setDataAt_loop ws k a b = Miss (Some (k + i))"
proof (induction ws arbitrary: i b k)
  case Nil
  then show ?case by simp
next
  case (Cons c cs)
  show ?case
  proof (cases i)
    case 0
    with Cons.prems show ?thesis by (cases cs) auto
  next
    case (Suc j)
    with Cons.prems have "alt c < alt (cs ! j)" and "alt (cs ! j) < a" by auto
    then have "alt c < a" by simp
    with Cons Suc show ?thesis by auto
  qed
qed

lemma setDataAt_loop_absent:
  "a \<notin> alt ` set ws \<Longrightarrow> \<exists>m. setDataAt_loop ws k a b = Miss m"
  by (induction ws arbitrary: k b) auto

text \<open>
  Claim C2. On a profile of at least two samples whose altitudes increase strictly,
  \<open>getDataAt\<close> returns the stored field of the sample at the altitude asked for when
  there is one, and for an altitude strictly between two neighbouring samples \<open>lo\<close> and
  \<open>hi\<close> it returns
  \<open>lo.field + ((altitude - lo.alt) / (hi.alt - lo.alt)) * (hi.field - lo.field)\<close>.
\<close>

theorem getDataAt_exact_or_interpolated:
  assumes "sorted_wrt (<) (map alt ws)" and "2 \<le> length ws"
  shows "(\<forall>i<length ws. alt (ws ! i) = a \<longrightarrow> getDataAt ws a f = Inr (getField f (ws ! i)))
       \<and> (\<forall>i. Suc i < length ws \<and> alt (ws ! i) < a \<and> a < alt (ws ! Suc i) \<longrightarrow>
            getDataAt ws a f =
              Inr (getField f (ws ! i)
                   + ((a - alt (ws ! i)) / (alt (ws ! Suc i) - alt (ws ! i)))
                     * (getField f (ws ! Suc i) - getField f (ws ! i))))"
proof (intro conjI allI impI)
  fix i assume "i < length ws" and "alt (ws ! i) = a"
  with assms(1) have "getDataAt_loop ws a None = Found (ws ! i)"
    by (rule getDataAt_loop_exact)
  then show "getDataAt ws a f = Inr (getField f (ws ! i))"
    by (simp add: getDataAt_def)
next
  fix i assume "Suc i < length ws \<and> alt (ws ! i) < a \<and> a < alt (ws ! Suc i)"
  with assms(1) have "getDataAt_loop ws a None = Ended (Some (ws ! i)) (Some (ws ! Suc i))"
    by (simp add: getDataAt_loop_between)
  then show "getDataAt ws a f =
      Inr (getField f (ws ! i)
           + ((a - alt (ws ! i)) / (alt (ws ! Suc i) - alt (ws ! i)))
             * (getField f (ws ! Suc i) - getField f (ws ! i)))"
    by (simp add: getDataAt_def)
qed

theorem getDataAt_exact_or_interpolated_witness:
  "sorted_wrt (<) (map alt defaultWeather) \<and> 2 \<le> length defaultWeather
   \<and> getDataAt defaultWeather 9500 Temp = Inr (- 41.5)
   \<and> getDataAt defaultWeather 100 Temp = Inr (25 + (100 / 9500) * (- 41.5 - 25))"
proof -
  have s: "sorted_wrt (<) (map alt defaultWeather)"
    by (simp add: defaultWeather_def profile_defs formula_defs)
  have l: "2 \<le> length defaultWeather"
    by (simp add: defaultWeather_def)
  have "getDataAt defaultWeather 9500 Temp = Inr (getField Temp (defaultWeather ! 1))"
    using getDataAt_exact_or_interpolated[OF s l, of 9500 Temp]
    by (simp add: defaultWeather_def profile_defs)
  moreover have "getDataAt defaultWeather 100 Temp =
      Inr (getField Temp (defaultWeather ! 0)
           + ((100 - alt (defaultWeather ! 0))
               / (alt (defaultWeather ! Suc 0) - alt (defaultWeather ! 0)))
             * (getField Temp (defaultWeather ! Suc 0) - getField Temp (defaultWeather ! 0)))"
    using getDataAt_exact_or_interpolated[OF s l, of 100 Temp]
    by (simp add: defaultWeather_def profile_defs)
  ultimately show ?thesis
    using s l by (simp add: defaultWeather_def profile_defs)
qed

text \<open>
  Claim C8. A query at an altitude strictly below the lowest or strictly above the
  highest sample altitude fails instead of extrapolating: \<open>getDataAt\<close> reads a property
  of \<open>undefined\<close>, which throws. The \<open>TypeError\<close> thrown is the only error a query has,
  the one the specification calls out of range.
\<close>

theorem getDataAt_out_of_range:
  assumes "2 \<le> length ws"
    and "(\<forall>c\<in>set ws. a < alt c) \<or> (\<forall>c\<in>set ws. alt c < a)"
  shows "getDataAt ws a f = Inl TypeError"
  using assms(2) by (rule getDataAt_outside)

theorem getDataAt_out_of_range_witness:
  "getDataAt defaultWeather (- 1) Temp = Inl TypeError
   \<and> getDataAt defaultWeather 10001 Humidity = Inl TypeError"
proof -
  have l: "2 \<le> length defaultWeather"
    by (simp add: defaultWeather_def)
  have "(\<forall>c\<in>set defaultWeather. - 1 < alt c) \<or> (\<forall>c\<in>set defaultWeather. alt c < - 1)"
    by (simp add: defaultWeather_def profile_defs formula_defs)
  note lo = getDataAt_out_of_range[OF l this, of Temp]
  have "(\<forall>c\<in>set defaultWeather. 10001 < alt c) \<or> (\<forall>c\<in>set defaultWeather. alt c < 10001)"
    by (simp add: defaultWeather_def profile_defs formula_defs)
  note hi = getDataAt_out_of_range[OF l this, of Humidity]
  from lo hi show ?thesis by simp
qed

section \<open>Updates\<close>

text \<open>
  Claim C9. An update at an altitude strictly below the lowest or strictly above the
  highest sample altitude throws before anything is inserted, and leaves the weather stack
  as it was: building the new sample queries the profile outside its range.
\<close>

theorem setDataAt_out_of_range:
  assumes "2 \<le> length ws"
    and "(\<forall>c\<in>set ws. a < alt c) \<or> (\<forall>c\<in>set ws. alt c < a)"
  shows "setDataAt cfg ws a f v = (ws, Some TypeError)"
proof -
  from assms(2) have "a \<notin> alt ` set ws" by auto
  then obtain m where "setDataAt_loop ws 0 a None = Miss m"
    using setDataAt_loop_absent by blast
  moreover have "AutoMeteoData cfg ws a = Inl TypeError"
    using getDataAt_outside[OF assms(2)] by (simp add: AutoMeteoData_def getTemperatureAt_def)
  ultimately show ?thesis by (simp add: setDataAt_def)
qed


theorem setDataAt_out_of_range_witness:
  "setDataAt defaultConfig defaultWeather 10500 Temp 0 = (defaultWeather, Some TypeError)"
proof -
  have l: "2 \<le> length defaultWeather"
    by (simp add: defaultWeather_def)
  have "(\<forall>c\<in>set defaultWeather. 10500 < alt c) \<or> (\<forall>c\<in>set defaultWeather. alt c < 10500)"
    by (simp add: defaultWeather_def profile_defs formula_defs)
  from setDataAt_out_of_range[OF l this] show ?thesis .
qed

lemma neighbours_exist:
  "sorted_wrt (<) (map alt ws) \<Longrightarrow> ws \<noteq> [] \<Longrightarrow> alt (hd ws) < a \<Longrightarrow> a < alt (last ws)
   \<Longrightarrow> a \<notin> alt ` set ws
   \<Longrightarrow> \<exists>i. Suc i < length ws \<and> alt (ws ! i) < a \<and> a < alt (ws ! Suc i)"
proof (induction ws)
  case Nil
  then show ?case by simp
next
  case (Cons c cs)
  from Cons.prems have cs: "cs \<noteq> []" by auto
  show ?case
  proof (cases "a < alt (hd cs)")
    case True
    with Cons.prems cs have "Suc 0 < length (c # cs) \<and> alt ((c # cs) ! 0) < a
        \<and> a < alt ((c # cs) ! Suc 0)"
      by (simp add: hd_conv_nth)
    then show ?thesis by blast
  next
    case False
    with Cons.prems cs have "alt (hd cs) < a" by (cases cs) auto
    with Cons cs obtain j where "Suc j < length cs \<and> alt (cs ! j) < a \<and> a < alt (cs ! Suc j)"
      by auto
    then have "Suc (Suc j) < length (c # cs) \<and> alt ((c # cs) ! Suc j) < a
        \<and> a < alt ((c # cs) ! Suc (Suc j))"
      by simp
    then show ?thesis by blast
  qed
qed

lemma getDataAt_between_ok:
  assumes "sorted_wrt (<) (map alt ws)" and "Suc i < length ws"
    and "alt (ws ! i) < a" and "a < alt (ws ! Suc i)"
  shows "\<exists>x. getDataAt ws a f = Inr x"
  using getDataAt_loop_between[OF assms, of None] by (simp add: getDataAt_def)

lemma AutoMeteoData_between:
  assumes "sorted_wrt (<) (map alt ws)" and "Suc i < length ws"
    and "alt (ws ! i) < a" and "a < alt (ws ! Suc i)"
  shows "\<exists>d. AutoMeteoData cfg ws a = Inr d \<and> alt d = a"
proof -
  obtain t w h where "getDataAt ws a Temp = Inr t" "getDataAt ws a Wind = Inr w"
    "getDataAt ws a Humidity = Inr h"
    using getDataAt_between_ok[OF assms] by blast
  then show ?thesis
    by (simp add: AutoMeteoData_def getDewPointAt_def getTemperatureAt_def getWindAt_def
        getAbsoluteHumidityAt_def)
qed

lemma alt_setField: "alt (setField f v d) = alt d"
  by (cases f) simp_all

lemma dewPoint_setField: "dewPoint (setField f v d) = dewPoint d"
  by (cases f) simp_all

lemma getField_setField: "getField f (setField f v d) = v"
  by (cases f) simp_all

lemma insert_before_unsorted:
  assumes "i < length ws" and "alt (ws ! i) < alt d"
  shows "\<not> sorted_wrt (<) (map alt (take i ws @ d # drop i ws))"
proof -
  from assms(1) have "drop i ws = ws ! i # drop (Suc i) ws"
    by (simp add: Cons_nth_drop_Suc)
  with assms(2) show ?thesis
    by (simp add: sorted_wrt_append)
qed

lemma setDataAt_insert_unsorted:
  assumes "sorted_wrt (<) (map alt ws)" and "ws \<noteq> []"
    and "alt (hd ws) < a" and "a < alt (last ws)" and "a \<notin> alt ` set ws"
  shows "\<exists>i newField. Suc i < length ws \<and> alt (ws ! i) < a \<and> a < alt (ws ! Suc i)
      \<and> alt newField = a
      \<and> setDataAt cfg ws a f v = (take i ws @ newField # drop i ws, None)
      \<and> \<not> sorted_wrt (<) (map alt (fst (setDataAt cfg ws a f v)))"
proof -
  from neighbours_exist[OF assms] obtain i where
    i: "Suc i < length ws" "alt (ws ! i) < a" "a < alt (ws ! Suc i)" by blast
  from AutoMeteoData_between[OF assms(1) i] obtain d where
    d: "AutoMeteoData cfg ws a = Inr d" "alt d = a" by blast
  have "setDataAt_loop ws 0 a None = Miss (Some i)"
    using setDataAt_loop_between[OF assms(1) i, of 0 None] by simp
  with d have r: "setDataAt cfg ws a f v = (take i ws @ setField f v d # drop i ws, None)"
    by (simp add: setDataAt_def splice_in_def)
  have "\<not> sorted_wrt (<) (map alt (take i ws @ setField f v d # drop i ws))"
    using i d by (intro insert_before_unsorted) (simp_all add: alt_setField)
  with r i d show ?thesis
    by (metis alt_setField fst_conv)
qed

text \<open>
  Claim C1. An update at an absent altitude strictly between the lowest and the
  highest sample altitude should leave the samples strictly increasing by altitude. The
  code does not: \<open>splice\<close> is given the index of the nearest sample below, so the new
  sample goes in front of that sample instead of behind it (\<open>setDataAt_insert_unsorted\<close>:
  on every such update). On the initial weather stack, an update at 500 m:
\<close>

theorem setDataAt_insert_breaks_order:
  "map alt defaultWeather = [0, 9500, 10000]
   \<and> snd (setDataAt defaultConfig defaultWeather 500 Temp 20) = None
   \<and> map alt (fst (setDataAt defaultConfig defaultWeather 500 Temp 20)) = [500, 0, 9500, 10000]"
  by (simp add: defaultWeather_def setDataAt_def AutoMeteoData_def getDewPointAt_def
      splice_in_def profile_defs formula_defs)

text \<open>
  Claim C4, amended. An update at the altitude of an existing sample assigns the
  field in place and returns. The dew point stored in the sample is not recomputed: it
  stays what it was. The dew point that \<open>getDewPointAt\<close> yields at that altitude afterwards
  is the one of the sample's new temperature and humidity, because it is derived on
  demand.
\<close>

theorem setDataAt_existing_sample:
  assumes "sorted_wrt (<) (map alt ws)" and "i < length ws" and "alt (ws ! i) = a"
  shows "setDataAt cfg ws a f v = (ws[i := setField f v (ws ! i)], None)
     \<and> getField f (setField f v (ws ! i)) = v
     \<and> dewPoint (setField f v (ws ! i)) = dewPoint (ws ! i)
     \<and> getDewPointAt cfg (ws[i := setField f v (ws ! i)]) a =
         Inr (getDewPoint (temp (setField f v (ws ! i)))
               (getRelativeHumidity (humidity (setField f v (ws ! i))) a
                  (getPressureAtAltitude (groundPressure cfg) a (temp (setField f v (ws ! i))))
                  (temp (setField f v (ws ! i)))))"
proof -
  let ?s = "setField f v (ws ! i)"
  let ?ws = "ws[i := ?s]"
  have "setDataAt_loop ws 0 a None = Hit i"
    using setDataAt_loop_exact[OF assms, of 0 None] by simp
  then have 1: "setDataAt cfg ws a f v = (?ws, None)"
    by (simp add: setDataAt_def)
  have "map alt ?ws = map alt ws"
    using assms(2) by (simp add: map_update alt_setField list_update_same_conv)
  with assms(1) have "sorted_wrt (<) (map alt ?ws)" by simp
  moreover have "i < length ?ws" "alt (?ws ! i) = a"
    using assms by (simp_all add: alt_setField)
  ultimately have "getDataAt_loop ?ws a None = Found (?ws ! i)"
    by (rule getDataAt_loop_exact)
  with assms(2) have "getDataAt_loop ?ws a None = Found ?s" by simp
  then have 2: "getDewPointAt cfg ?ws a =
         Inr (getDewPoint (temp ?s)
               (getRelativeHumidity (humidity ?s) a
                  (getPressureAtAltitude (groundPressure cfg) a (temp ?s)) (temp ?s)))"
    by (simp add: getDewPointAt_def getTemperatureAt_def getAbsoluteHumidityAt_def getDataAt_def)
  from 1 2 show ?thesis
    by (simp add: getField_setField dewPoint_setField)
qed

theorem setDataAt_existing_sample_witness:
  "sorted_wrt (<) (map alt saturatedWeather) \<and> 0 < length saturatedWeather
   \<and> alt (saturatedWeather ! 0) = 0
   \<and> setDataAt defaultConfig saturatedWeather 0 Humidity 10.036
       = (saturatedWeather[0 := setField Humidity 10.036 (saturatedWeather ! 0)], None)
   \<and> dewPoint (setField Humidity 10.036 (saturatedWeather ! 0))
       = dewPoint (saturatedWeather ! 0)"
proof -
  have s: "sorted_wrt (<) (map alt saturatedWeather)"
    by (simp add: saturatedWeather_def profile_defs)
  have l: "0 < length saturatedWeather"
    by (simp add: saturatedWeather_def)
  have a: "alt (saturatedWeather ! 0) = 0"
    by (simp add: saturatedWeather_def profile_defs)
  from setDataAt_existing_sample[OF s l a, of defaultConfig Humidity "10.036"] s l a
  show ?thesis by blast
qed

text \<open>
  Claim C4 as stated fails. The ground sample of \<open>saturatedWeather\<close> has humidity 5.018
  at 0 degrees, which is saturation, and its dew point is 0. After its humidity is set
  to 10.036 the stored dew point is still 0, which is not the dew point of the new
  humidity.
\<close>

lemma ln_100: "ln (100::real) = 2 * ln 10"
proof -
  have "ln ((10::real) ^ 2) = real 2 * ln 10" by (rule ln_realpow)
  then show ?thesis by simp
qed

lemma ln_10_pos: "0 < ln (10::real)"
  by simp

lemma getDewPoint_saturated: "getDewPoint 0 (Fin 1) = Fin 0"
  using ln_10_pos by (simp add: getDewPoint_def Let_def ln_100 minus_jsnum_def)

lemma getDewPoint_twice_saturated: "getDewPoint 0 (Fin 2) \<noteq> Fin 0"
proof -
  have "ln (100::real) < ln 200" by (subst ln_less_cancel_iff) simp_all
  then have "2 * ln (10::real) < ln 200" by (simp add: ln_100)
  then have "2 < ln 200 / ln (10::real)" using ln_10_pos by (simp add: pos_less_divide_eq)
  then have "0 < ln 200 / ln (10::real) - 2" by linarith
  then have h: "0 < (ln 200 / ln (10::real) - 2) / 0.4343" by (rule divide_pos_pos) simp
  define h where "h = (ln 200 / ln (10::real) - 2) / 0.4343"
  with h have hp: "0 < h" by simp
  have H: "(js_log (Fin 2 * Fin 100) / Fin (ln 10) - Fin 2) / Fin 0.4343
                + Fin (17.62 * 0) / Fin (243.12 + 0) = Fin h"
    using ln_10_pos by (simp add: h_def minus_jsnum_def)
  have "Fin 243.12 * Fin h / (Fin 17.62 - Fin h) \<noteq> Fin 0"
    using hp by (simp add: minus_jsnum_def)
  with H show ?thesis by (simp add: getDewPoint_def Let_def)
qed

theorem setDataAt_stale_dewPoint_counterexample:
  "fst (setDataAt defaultConfig saturatedWeather 0 Humidity 10.036) ! 0
     = \<lparr>alt = 0, temp = 0, wind = 0, humidity = 10.036, dewPoint = Fin 0\<rparr>
   \<and> getDewPoint 0
        (getRelativeHumidity 10.036 0 (getPressureAtAltitude (groundPressure defaultConfig) 0 0) 0)
       \<noteq> Fin 0"
proof -
  have "getRelativeHumidity 5.018 0 p 0 = Fin 1" for p
    by (simp add: getRelativeHumidity_def getSaturatedDensityFor_def)
  then have "fst (setDataAt defaultConfig saturatedWeather 0 Humidity 10.036) ! 0
     = \<lparr>alt = 0, temp = 0, wind = 0, humidity = 10.036, dewPoint = Fin 0\<rparr>"
    by (simp add: setDataAt_def saturatedWeather_def new_MeteoData_def getDewPoint_saturated)
  moreover have "getRelativeHumidity 10.036 0 p 0 = Fin 2" for p
    by (simp add: getRelativeHumidity_def getSaturatedDensityFor_def)
  ultimately show ?thesis by (simp add: getDewPoint_twice_saturated)
qed


section \<open>The run of the thermal\<close>

lemma stepAltitude_Suc: "stepAltitude cfg (Suc k) = stepAltitude cfg k + calculationResolution cfg"
  by (simp add: stepAltitude_def algebra_simps)

lemma thermalStep_spec:
  "thermalStep cfg (stepAltitude cfg (Suc k)) (T (Suc k)) (specLevel cfg T k)
     (impulseAt cfg T k) (specData cfg T k)
   = (specLevel cfg T (Suc k), impulseAt cfg T (Suc k), specData cfg T (Suc k))"
  by (simp add: thermalStep_def specLevel_def specData_def Let_def getRelativeHumidity_def
      stepHumidity_def crossing_def stepAltitude_Suc impulseAt.simps cloudBaseAt.simps)

lemma ranSteps_extend:
  assumes "ranSteps cfg ws (Suc k) n data" and "Suc k \<le> n"
    and "getTemperatureAt ws (stepAltitude cfg (Suc k)) = Inr (stepTemperature cfg ws (Suc k))"
    and "stepAltitude cfg (Suc k) < calculationsMaxHeight"
    and "\<not> impulseAt cfg (stepTemperature cfg ws) (Suc k) < 0"
  shows "ranSteps cfg ws k n data"
proof -
  have *: "\<And>j. k < j \<Longrightarrow> j = Suc k \<or> Suc k < j" by auto
  show ?thesis
    using assms unfolding ranSteps_def Let_def
    apply (intro conjI allI impI)
    subgoal for j using *[of j] by auto
    subgoal for j using *[of j] by auto
    subgoal for j using *[of j] by auto
    subgoal using *[of n] by (cases "n = Suc k") auto
    done
qed

text \<open>Whatever the resolution: a run that returns data has taken steps as described.\<close>

lemma thermalLoop_steps_all:
  assumes run: "thermalLoop cfg ws altitude prev impulse data = Some r"
  shows "\<forall>k d. altitude = stepAltitude cfg (Suc k)
      \<longrightarrow> prev = specLevel cfg (stepTemperature cfg ws) k
      \<longrightarrow> impulse = impulseAt cfg (stepTemperature cfg ws) k
      \<longrightarrow> data = specData cfg (stepTemperature cfg ws) k
      \<longrightarrow> r = Inr d \<longrightarrow> (\<exists>n\<ge>k. ranSteps cfg ws k n d)"
proof (rule thermalLoop.raw_induct[where P = "\<lambda>cfg ws altitude prev impulse data r.
      \<forall>k d. altitude = stepAltitude cfg (Suc k)
      \<longrightarrow> prev = specLevel cfg (stepTemperature cfg ws) k
      \<longrightarrow> impulse = impulseAt cfg (stepTemperature cfg ws) k
      \<longrightarrow> data = specData cfg (stepTemperature cfg ws) k
      \<longrightarrow> r = Inr d \<longrightarrow> (\<exists>n\<ge>k. ranSteps cfg ws k n d)", OF _ run], intro allI impI)
  fix loop :: "config \<Rightarrow> MeteoData list \<Rightarrow> real \<Rightarrow> level \<Rightarrow> real \<Rightarrow> ThermalData
     \<Rightarrow> (error + ThermalData) option"
  fix cfg ws altitude prev impulse data r k d
  let ?T = "stepTemperature cfg ws"
  assume IH: "\<And>cfg ws altitude prev impulse data r.
      loop cfg ws altitude prev impulse data = Some r \<Longrightarrow>
      \<forall>k d. altitude = stepAltitude cfg (Suc k)
      \<longrightarrow> prev = specLevel cfg (stepTemperature cfg ws) k
      \<longrightarrow> impulse = impulseAt cfg (stepTemperature cfg ws) k
      \<longrightarrow> data = specData cfg (stepTemperature cfg ws) k
      \<longrightarrow> r = Inr d \<longrightarrow> (\<exists>n\<ge>k. ranSteps cfg ws k n d)"
  assume body0: "(if altitude < calculationsMaxHeight then
        (case getTemperatureAt ws altitude of
           Inl e \<Rightarrow> Some (Inl e)
         | Inr tmp \<Rightarrow>
             (case thermalStep cfg altitude tmp prev impulse data of
                (cur, impulse1, data1) \<Rightarrow>
                  if impulse1 < 0 then Some (Inr (data1\<lparr>thermalTop := altitude\<rparr>))
                  else loop cfg ws (altitude + calculationResolution cfg) cur impulse1 data1))
      else Some (Inr data)) = Some r"
  assume st: "altitude = stepAltitude cfg (Suc k)" "prev = specLevel cfg ?T k"
    "impulse = impulseAt cfg ?T k" "data = specData cfg ?T k"
  assume r: "r = Inr d"
  note body = body0[unfolded st]
  show "\<exists>n\<ge>k. ranSteps cfg ws k n d"
  proof (cases "stepAltitude cfg (Suc k) < calculationsMaxHeight")
    case False
    with body r have "d = specData cfg ?T k" by simp
    moreover from False have "ranSteps cfg ws k k (specData cfg ?T k)"
      by (auto simp: ranSteps_def)
    ultimately show ?thesis by blast
  next
    case True
    show ?thesis
    proof (cases "getTemperatureAt ws (stepAltitude cfg (Suc k))")
      case (Inl e)
      with True body r show ?thesis by simp
    next
      case (Inr t)
      then have t: "t = ?T (Suc k)" by (simp add: stepTemperature_def)
      show ?thesis
      proof (cases "impulseAt cfg ?T (Suc k) < 0")
        case neg: True
        with True Inr t body r
        have "d = (specData cfg ?T (Suc k))\<lparr>thermalTop := stepAltitude cfg (Suc k)\<rparr>"
          by (simp add: thermalStep_spec)
        moreover from True Inr t neg
        have "ranSteps cfg ws k (Suc k)
            ((specData cfg ?T (Suc k))\<lparr>thermalTop := stepAltitude cfg (Suc k)\<rparr>)"
          by (auto simp: ranSteps_def Let_def less_Suc_eq le_Suc_eq)
        ultimately show ?thesis by (metis le_SucI order_refl)
      next
        case pos: False
        with True Inr t body
        have "loop cfg ws (stepAltitude cfg (Suc (Suc k))) (specLevel cfg ?T (Suc k))
              (impulseAt cfg ?T (Suc k)) (specData cfg ?T (Suc k)) = Some r"
          by (simp add: thermalStep_spec stepAltitude_Suc[of cfg "Suc k", symmetric])
        from IH[OF this] r
        obtain n where n: "Suc k \<le> n" "ranSteps cfg ws (Suc k) n d" by blast
        from ranSteps_extend[OF n(2) n(1)] Inr t True pos
        have "ranSteps cfg ws k n d" by simp
        with n(1) show ?thesis by (metis Suc_leD)
      qed
    qed
  qed
qed

text \<open>With a positive resolution the loop ends.\<close>

lemma thermalLoop_spec:
  assumes res: "0 < calculationResolution cfg"
  shows "\<exists>r. thermalLoop cfg ws (stepAltitude cfg (Suc k)) (specLevel cfg (stepTemperature cfg ws) k)
            (impulseAt cfg (stepTemperature cfg ws) k) (specData cfg (stepTemperature cfg ws) k) = Some r
          \<and> (\<forall>data. r = Inr data \<longrightarrow> (\<exists>n\<ge>k. ranSteps cfg ws k n data))"
proof (induction "nat \<lceil>calculationsMaxHeight / calculationResolution cfg\<rceil> - k" arbitrary: k rule: less_induct)
  case less
  let ?T = "stepTemperature cfg ws"
  let ?N = "nat \<lceil>calculationsMaxHeight / calculationResolution cfg\<rceil>"
  show ?case
  proof (cases "stepAltitude cfg (Suc k) < calculationsMaxHeight")
    case False
    then have "thermalLoop cfg ws (stepAltitude cfg (Suc k)) (specLevel cfg ?T k)
        (impulseAt cfg ?T k) (specData cfg ?T k) = Some (Inr (specData cfg ?T k))"
      by (subst thermalLoop.simps) simp
    moreover from False have "ranSteps cfg ws k k (specData cfg ?T k)"
      by (auto simp: ranSteps_def)
    ultimately show ?thesis by blast
  next
    case True
    then have "real (Suc k) < calculationsMaxHeight / calculationResolution cfg"
      using res by (simp add: stepAltitude_def pos_less_divide_eq)
    then have "k < ?N" by linarith
    then have dec: "?N - Suc k < ?N - k" by simp
    show ?thesis
    proof (cases "getTemperatureAt ws (stepAltitude cfg (Suc k))")
      case (Inl e)
      with True have "thermalLoop cfg ws (stepAltitude cfg (Suc k)) (specLevel cfg ?T k)
        (impulseAt cfg ?T k) (specData cfg ?T k) = Some (Inl e)"
        by (subst thermalLoop.simps) simp
      then show ?thesis by simp
    next
      case (Inr t)
      then have t: "t = ?T (Suc k)" by (simp add: stepTemperature_def)
      show ?thesis
      proof (cases "impulseAt cfg ?T (Suc k) < 0")
        case neg: True
        with True Inr t have "thermalLoop cfg ws (stepAltitude cfg (Suc k)) (specLevel cfg ?T k)
            (impulseAt cfg ?T k) (specData cfg ?T k)
          = Some (Inr ((specData cfg ?T (Suc k))\<lparr>thermalTop := stepAltitude cfg (Suc k)\<rparr>))"
          by (subst thermalLoop.simps) (simp add: thermalStep_spec)
        moreover from True Inr t neg
        have "ranSteps cfg ws k (Suc k)
            ((specData cfg ?T (Suc k))\<lparr>thermalTop := stepAltitude cfg (Suc k)\<rparr>)"
          by (auto simp: ranSteps_def Let_def less_Suc_eq le_Suc_eq)
        ultimately show ?thesis by (metis le_SucI order_refl sum.inject(2))
      next
        case pos: False
        with True Inr t have eq: "thermalLoop cfg ws (stepAltitude cfg (Suc k)) (specLevel cfg ?T k)
            (impulseAt cfg ?T k) (specData cfg ?T k)
          = thermalLoop cfg ws (stepAltitude cfg (Suc (Suc k))) (specLevel cfg ?T (Suc k))
              (impulseAt cfg ?T (Suc k)) (specData cfg ?T (Suc k))"
          by (subst thermalLoop.simps)
            (simp add: thermalStep_spec stepAltitude_Suc[of cfg "Suc k", symmetric])
        from less[OF dec] obtain r where
          r: "thermalLoop cfg ws (stepAltitude cfg (Suc (Suc k))) (specLevel cfg ?T (Suc k))
              (impulseAt cfg ?T (Suc k)) (specData cfg ?T (Suc k)) = Some r"
          and rr: "\<forall>data. r = Inr data \<longrightarrow> (\<exists>n\<ge>Suc k. ranSteps cfg ws (Suc k) n data)"
          by blast
        have "\<forall>data. r = Inr data \<longrightarrow> (\<exists>n\<ge>k. ranSteps cfg ws k n data)"
        proof (intro allI impI)
          fix data assume "r = Inr data"
          with rr obtain n where n: "Suc k \<le> n" "ranSteps cfg ws (Suc k) n data" by blast
          from ranSteps_extend[OF n(2) n(1)] Inr t True pos
          have "ranSteps cfg ws k n data" by simp
          with n(1) show "\<exists>n\<ge>k. ranSteps cfg ws k n data" by (metis Suc_leD)
        qed
        with eq r show ?thesis by simp
      qed
    qed
  qed
qed


lemma getThermalData_spec:
  assumes res: "0 < calculationResolution cfg"
  shows "\<exists>r. getThermalData cfg ws = Some r
     \<and> (\<forall>data. r = Inr data \<longrightarrow>
           getTemperatureAt ws 0 = Inr (stepTemperature cfg ws 0)
           \<and> (\<exists>n. ranSteps cfg ws 0 n data))"
proof (cases "getTemperatureAt ws 0")
  case (Inl e)
  then show ?thesis by (simp add: getThermalData_def)
next
  case (Inr t0)
  let ?T = "stepTemperature cfg ws"
  from Inr have t0: "?T 0 = t0" by (simp add: stepTemperature_def stepAltitude_def)
  then have lv: "specLevel cfg ?T 0 = \<lparr>l_alt = 0, l_temp = t0,
      relHumi = getRelativeHumidity (defaultGroundAbsoluteHumidity cfg) 0
        (Fin (groundPressure cfg)) t0\<rparr>"
    by (simp add: specLevel_def stepAltitude_def stepHumidity_def getRelativeHumidity_def)
  have dt: "specData cfg ?T 0 = \<lparr>thermalTop = calculationsMaxHeight,
      cloudBase = Fin calculationsMaxHeight, strength = []\<rparr>"
    by (simp add: specData_def cloudBaseAt.simps)
  have "getThermalData cfg ws = thermalLoop cfg ws (stepAltitude cfg (Suc 0))
      (specLevel cfg ?T 0) (impulseAt cfg ?T 0) (specData cfg ?T 0)"
    using Inr by (simp add: getThermalData_def lv dt impulseAt.simps stepAltitude_def)
  with thermalLoop_spec[OF res, of ws 0] Inr t0 show ?thesis by auto
qed

lemma getThermalData_returns:
  assumes "0 < calculationResolution cfg"
  shows "\<exists>r. getThermalData cfg ws = Some r"
  using getThermalData_spec[OF assms, of ws] by blast

lemma run_shape:
  assumes "getThermalData cfg ws = Some (Inr data)"
  shows "ranSteps cfg ws 0 (length (strength data)) data"
    and "getTemperatureAt ws 0 = Inr (stepTemperature cfg ws 0)"
proof -
  let ?T = "stepTemperature cfg ws"
  from assms obtain t0 where t0: "getTemperatureAt ws 0 = Inr t0"
    by (cases "getTemperatureAt ws 0") (simp_all add: getThermalData_def)
  then have T0: "?T 0 = t0" by (simp add: stepTemperature_def stepAltitude_def)
  with t0 show "getTemperatureAt ws 0 = Inr (?T 0)" by simp
  from T0 have lv: "specLevel cfg ?T 0 = \<lparr>l_alt = 0, l_temp = t0,
      relHumi = getRelativeHumidity (defaultGroundAbsoluteHumidity cfg) 0
        (Fin (groundPressure cfg)) t0\<rparr>"
    by (simp add: specLevel_def stepAltitude_def stepHumidity_def getRelativeHumidity_def)
  have dt: "specData cfg ?T 0 = \<lparr>thermalTop = calculationsMaxHeight,
      cloudBase = Fin calculationsMaxHeight, strength = []\<rparr>"
    by (simp add: specData_def cloudBaseAt.simps)
  from assms t0 have "thermalLoop cfg ws (stepAltitude cfg (Suc 0))
      (specLevel cfg ?T 0) (impulseAt cfg ?T 0) (specData cfg ?T 0) = Some (Inr data)"
    by (simp add: getThermalData_def lv dt impulseAt.simps stepAltitude_def)
  from thermalLoop_steps_all[OF this] obtain n where n: "ranSteps cfg ws 0 n data"
    by blast
  then have "length (strength data) = n"
    by (auto simp: ranSteps_def Let_def specData_def)
  with n show "ranSteps cfg ws 0 (length (strength data)) data" by simp
qed

lemma run_strength:
  assumes "ranSteps cfg ws 0 n data"
  shows "strength data
    = map (\<lambda>k. (stepAltitude cfg k, impulseAt cfg (stepTemperature cfg ws) k)) [1..<Suc n]"
  using assms by (auto simp: ranSteps_def Let_def specData_def)

lemma run_strength_nth:
  assumes "ranSteps cfg ws 0 n data" and "i < n"
  shows "strength data ! i
    = (stepAltitude cfg (Suc i), impulseAt cfg (stepTemperature cfg ws) (Suc i))"
  using assms(2) by (simp add: run_strength[OF assms(1)] nth_map_upt del: upt_Suc)

lemma ran_top_neg:
  assumes "ranSteps cfg ws 0 n data" and "0 < n"
    and "impulseAt cfg (stepTemperature cfg ws) n < 0"
  shows "thermalTop data = stepAltitude cfg n"
  using assms by (auto simp: ranSteps_def Let_def)

lemma ran_top_pos:
  assumes "ranSteps cfg ws 0 n data"
    and "\<not> (0 < n \<and> impulseAt cfg (stepTemperature cfg ws) n < 0)"
  shows "thermalTop data = calculationsMaxHeight"
    and "\<not> stepAltitude cfg (Suc n) < calculationsMaxHeight"
  using assms by (auto simp: ranSteps_def Let_def specData_def)

lemma ran_before:
  assumes "ranSteps cfg ws 0 n data" and "0 < j" and "j < n"
  shows "\<not> impulseAt cfg (stepTemperature cfg ws) j < 0"
  using assms by (auto simp: ranSteps_def Let_def)

lemma ran_reads:
  assumes "ranSteps cfg ws 0 n data" and "0 < j" and "j \<le> n"
  shows "getTemperatureAt ws (stepAltitude cfg j) = Inr (stepTemperature cfg ws j)"
    and "stepAltitude cfg j < calculationsMaxHeight"
  using assms by (auto simp: ranSteps_def Let_def)

lemma ran_cloudBase:
  assumes "ranSteps cfg ws 0 n data"
  shows "cloudBase data = cloudBaseAt cfg (stepTemperature cfg ws) n"
  using assms by (auto simp: ranSteps_def Let_def specData_def)

lemma inversion_run: "getThermalData inversionConfig inversionWeather = Some (Inr inversionRun)"
  by (simp add: inversionWeather_def inversionRun_def inversionConfig_def run_defs profile_defs
      formula_defs)

lemma humid_run: "getThermalData defaultConfig humidWeather = Some (Inr humidRun)"
  by (simp add: humidWeather_def humidRun_def run_defs profile_defs formula_defs)

lemma unstable_run: "getThermalData dryConfig unstableWeather = Some (Inr unstableRun)"
  by (simp add: unstableWeather_def unstableRun_def dryConfig_def run_defs profile_defs
      formula_defs upt_conv_Cons)



text \<open>
  Claim C3, amended. The thermal top is the altitude of the first step at which the
  impulse is strictly less than zero, and it is \<open>calculationsMaxHeight\<close> if the impulse
  is negative at no step. The entries of \<open>strength\<close> are the steps of the run: a step
  with a negative impulse is the last one and the thermal top is its altitude; without
  one, the run took every step below the ceiling.
\<close>

theorem thermalTop_first_negative_impulse:
  assumes "getThermalData cfg ws = Some (Inr data)"
  shows "(\<forall>i<length (strength data). fst (strength data ! i) = stepAltitude cfg (Suc i))
    \<and> (\<forall>i<length (strength data). snd (strength data ! i) < 0 \<longrightarrow>
          Suc i = length (strength data) \<and> thermalTop data = fst (strength data ! i))
    \<and> ((\<forall>i<length (strength data). \<not> snd (strength data ! i) < 0) \<longrightarrow>
          thermalTop data = calculationsMaxHeight
          \<and> \<not> stepAltitude cfg (Suc (length (strength data))) < calculationsMaxHeight)"
proof -
  let ?n = "length (strength data)"
  let ?T = "stepTemperature cfg ws"
  note r = run_shape(1)[OF assms]
  note nth = run_strength_nth[OF r]
  have a: "\<forall>i<?n. fst (strength data ! i) = stepAltitude cfg (Suc i)"
    by (simp add: nth)
  have b: "\<forall>i<?n. snd (strength data ! i) < 0 \<longrightarrow>
          Suc i = ?n \<and> thermalTop data = fst (strength data ! i)"
  proof (intro allI impI)
    fix i assume i: "i < ?n" and neg: "snd (strength data ! i) < 0"
    then have neg': "impulseAt cfg ?T (Suc i) < 0" by (simp add: nth)
    from ran_before[OF r, of "Suc i"] neg' i have last: "Suc i = ?n"
      by (cases "Suc i < ?n") auto
    from i have "0 < ?n" by arith
    moreover from neg' last have "impulseAt cfg ?T ?n < 0" by (simp only:)
    ultimately have "thermalTop data = stepAltitude cfg ?n"
      by (rule ran_top_neg[OF r])
    with last i show "Suc i = ?n \<and> thermalTop data = fst (strength data ! i)"
      by (simp add: nth)
  qed
  have c: "(\<forall>i<?n. \<not> snd (strength data ! i) < 0) \<longrightarrow>
          thermalTop data = calculationsMaxHeight
          \<and> \<not> stepAltitude cfg (Suc ?n) < calculationsMaxHeight"
  proof
    assume all: "\<forall>i<?n. \<not> snd (strength data ! i) < 0"
    have "\<not> (0 < ?n \<and> impulseAt cfg ?T ?n < 0)"
    proof
      assume h: "0 < ?n \<and> impulseAt cfg ?T ?n < 0"
      then obtain i where "?n = Suc i" by (cases ?n) auto
      with h all nth[of i] show False by auto
    qed
    with ran_top_pos[OF r] show "thermalTop data = calculationsMaxHeight
          \<and> \<not> stepAltitude cfg (Suc ?n) < calculationsMaxHeight"
      by blast
  qed
  from a b c show ?thesis by blast
qed


theorem thermalTop_first_negative_impulse_witness:
  "getThermalData inversionConfig inversionWeather = Some (Inr inversionRun)
   \<and> snd (strength inversionRun ! 1) < 0
   \<and> Suc 1 = length (strength inversionRun)
   \<and> thermalTop inversionRun = fst (strength inversionRun ! 1)"
proof -
  have n: "snd (strength inversionRun ! 1) < 0" and l: "1 < length (strength inversionRun)"
    by (simp_all add: inversionRun_def)
  from thermalTop_first_negative_impulse[OF inversion_run] l n
  have "Suc 1 = length (strength inversionRun)
      \<and> thermalTop inversionRun = fst (strength inversionRun ! 1)"
    by blast
  with inversion_run n show ?thesis by blast
qed

text \<open>
  Claim C3 as stated fails at an impulse of exactly zero. In the run over
  \<open>inversionWeather\<close> with a solar strength of 0.275 the impulse is 0 at 100 m, which
  is less than or equal to zero; the loop goes on, and the thermal top is 200 m.
\<close>

theorem thermalTop_zero_impulse_counterexample:
  "getThermalData inversionConfig inversionWeather = Some (Inr inversionRun)
   \<and> solarStrength inversionConfig = 0.275
   \<and> snd (strength inversionRun ! 0) \<le> 0
   \<and> strength inversionRun ! 0 = (100, 0)
   \<and> thermalTop inversionRun = 200"
  using inversion_run by (simp add: inversionRun_def inversionConfig_def)

lemma stepAltitude_mono:
  assumes "0 < calculationResolution cfg" and "j < k"
  shows "stepAltitude cfg j < stepAltitude cfg k"
  using assms by (simp add: stepAltitude_def)

lemma sorted_stepAltitudes:
  assumes "0 < calculationResolution cfg"
  shows "sorted_wrt (<) (map (stepAltitude cfg) [m..<n])"
  using sorted_wrt_mono_rel[OF _ sorted_wrt_upt, of m n "\<lambda>j k. stepAltitude cfg j < stepAltitude cfg k"]
    stepAltitude_mono[OF assms]
  by (simp add: sorted_wrt_map)

text \<open>
  Claim C5, amended. \<open>strength\<close> has one entry for each step of the run, at the
  consecutive multiples of \<open>calculationResolution\<close> from the first one on, in ascending
  order and all below \<open>calculationsMaxHeight\<close>. If the last entry has a negative
  impulse, its altitude is the thermal top. Otherwise no entry has a negative impulse,
  the run took every step strictly below \<open>calculationsMaxHeight\<close>, the thermal top is
  \<open>calculationsMaxHeight\<close>, and every entry, the last one too, is strictly below it.
\<close>

theorem strength_steps:
  assumes "getThermalData cfg ws = Some (Inr data)"
  shows "map fst (strength data) = map (stepAltitude cfg) [1..<Suc (length (strength data))]
    \<and> (0 < calculationResolution cfg \<longrightarrow> sorted_wrt (<) (map fst (strength data)))
    \<and> (\<forall>p\<in>set (strength data). fst p < calculationsMaxHeight)
    \<and> (if strength data \<noteq> [] \<and> snd (last (strength data)) < 0
       then thermalTop data = fst (last (strength data))
       else thermalTop data = calculationsMaxHeight
            \<and> \<not> stepAltitude cfg (Suc (length (strength data))) < calculationsMaxHeight
            \<and> (\<forall>p\<in>set (strength data). \<not> snd p < 0 \<and> fst p < thermalTop data))"
proof -
  let ?n = "length (strength data)"
  let ?T = "stepTemperature cfg ws"
  let ?g = "\<lambda>k. (stepAltitude cfg k, impulseAt cfg ?T k)"
  note r = run_shape(1)[OF assms]
  have S: "strength data = map ?g [1..<Suc ?n]" by (rule run_strength[OF r])
  have a: "map fst (strength data) = map (stepAltitude cfg) [1..<Suc ?n]"
    by (subst S) (simp add: comp_def del: upt_Suc)
  have b: "0 < calculationResolution cfg \<longrightarrow> sorted_wrt (<) (map fst (strength data))"
    by (subst a) (simp add: sorted_stepAltitudes del: upt_Suc)
  have mem: "\<And>p. p \<in> set (strength data) \<Longrightarrow> \<exists>k. 0 < k \<and> k \<le> ?n \<and> p = ?g k"
  proof -
    fix p assume "p \<in> set (strength data)"
    then have "p \<in> set (map ?g [1..<Suc ?n])" by (simp only: S[symmetric])
    then obtain k where "k \<in> {1..<Suc ?n}" and "p = ?g k"
      unfolding set_map set_upt by blast
    then have "0 < k \<and> k \<le> ?n \<and> p = ?g k" by simp
    then show "\<exists>k. 0 < k \<and> k \<le> ?n \<and> p = ?g k" ..
  qed
  have c: "\<forall>p\<in>set (strength data). fst p < calculationsMaxHeight"
  proof
    fix p assume "p \<in> set (strength data)"
    from mem[OF this] obtain k where k: "0 < k" "k \<le> ?n" "p = ?g k" by blast
    with ran_reads(2)[OF r k(1,2)] show "fst p < calculationsMaxHeight" by simp
  qed
  have lst: "strength data \<noteq> [] \<Longrightarrow> last (strength data) = ?g ?n"
  proof -
    assume ne: "strength data \<noteq> []"
    then have "0 < ?n" by simp
    then have "last (map ?g [1..<Suc ?n]) = ?g ?n"
      by (simp add: last_map del: upt_Suc)
    then show ?thesis by (simp only: S[symmetric])
  qed
  have d: "if strength data \<noteq> [] \<and> snd (last (strength data)) < 0
       then thermalTop data = fst (last (strength data))
       else thermalTop data = calculationsMaxHeight
            \<and> \<not> stepAltitude cfg (Suc ?n) < calculationsMaxHeight
            \<and> (\<forall>p\<in>set (strength data). \<not> snd p < 0 \<and> fst p < thermalTop data)"
  proof (cases "strength data \<noteq> [] \<and> snd (last (strength data)) < 0")
    case True
    then have "0 < ?n" and "impulseAt cfg ?T ?n < 0" using lst by simp_all
    then have "thermalTop data = stepAltitude cfg ?n" by (rule ran_top_neg[OF r])
    with True lst show ?thesis by simp
  next
    case False
    then have nn: "\<not> (0 < ?n \<and> impulseAt cfg ?T ?n < 0)" using lst by auto
    note top = ran_top_pos[OF r nn]
    have "\<forall>p\<in>set (strength data). \<not> snd p < 0 \<and> fst p < thermalTop data"
    proof
      fix p assume p: "p \<in> set (strength data)"
      from mem[OF p] obtain k where k: "0 < k" "k \<le> ?n" "p = ?g k" by blast
      have "\<not> impulseAt cfg ?T k < 0"
      proof (cases "k < ?n")
        case True
        from ran_before[OF r k(1) True] show ?thesis .
      next
        case False
        with k have "k = ?n" by simp
        with nn k show ?thesis by simp
      qed
      moreover from c p have "fst p < calculationsMaxHeight" by blast
      ultimately show "\<not> snd p < 0 \<and> fst p < thermalTop data"
        using k(3) top(1) by simp
    qed
    with top have X: "thermalTop data = calculationsMaxHeight
            \<and> \<not> stepAltitude cfg (Suc ?n) < calculationsMaxHeight
            \<and> (\<forall>p\<in>set (strength data). \<not> snd p < 0 \<and> fst p < thermalTop data)"
      by blast
    show ?thesis unfolding if_not_P[OF False] by (rule X)
  qed
  from a b c d show ?thesis by blast
qed

theorem strength_steps_witness:
  "getThermalData dryConfig unstableWeather = Some (Inr unstableRun)
   \<and> 0 < calculationResolution dryConfig
   \<and> map fst (strength unstableRun) = map (stepAltitude dryConfig) [1..<Suc 99]
   \<and> sorted_wrt (<) (map fst (strength unstableRun))
   \<and> thermalTop unstableRun = calculationsMaxHeight
   \<and> \<not> stepAltitude dryConfig (Suc 99) < calculationsMaxHeight"
proof -
  have r: "0 < calculationResolution dryConfig"
    by (simp add: dryConfig_def defaultConfig_def)
  have l: "length (strength unstableRun) = 99"
    by (simp add: unstableRun_def)
  have ne: "\<not> (strength unstableRun \<noteq> [] \<and> snd (last (strength unstableRun)) < 0)"
    by (simp add: unstableRun_def last_map)
  note c = strength_steps[OF unstable_run]
  from c have 1: "map fst (strength unstableRun)
      = map (stepAltitude dryConfig) [1..<Suc (length (strength unstableRun))]"
    by (rule conjunct1)
  from c r have 2: "sorted_wrt (<) (map fst (strength unstableRun))"
    by blast
  from c have "if strength unstableRun \<noteq> [] \<and> snd (last (strength unstableRun)) < 0
       then thermalTop unstableRun = fst (last (strength unstableRun))
       else thermalTop unstableRun = calculationsMaxHeight
            \<and> \<not> stepAltitude dryConfig (Suc (length (strength unstableRun)))
                  < calculationsMaxHeight
            \<and> (\<forall>p\<in>set (strength unstableRun).
                  \<not> snd p < 0 \<and> fst p < thermalTop unstableRun)"
    by blast
  then have 3: "thermalTop unstableRun = calculationsMaxHeight
      \<and> \<not> stepAltitude dryConfig (Suc (length (strength unstableRun))) < calculationsMaxHeight"
    unfolding if_not_P[OF ne] by blast
  from unstable_run r 1[unfolded l] 2 3[unfolded l] show ?thesis by blast
qed

text \<open>
  Claim C5 as stated fails when the impulse is never negative. In the run over
  \<open>unstableWeather\<close> the last step is at 9900 m, the last multiple of the resolution
  that is strictly below the ceiling, and the thermal top is 10000 m.
\<close>

theorem strength_ends_below_ceiling_counterexample:
  "getThermalData dryConfig unstableWeather = Some (Inr unstableRun)
   \<and> calculationResolution dryConfig = 100
   \<and> list_all (\<lambda>p. 0 \<le> snd p) (strength unstableRun)
   \<and> fst (last (strength unstableRun)) = 9900
   \<and> thermalTop unstableRun = 10000"
proof -
  have "list_all (\<lambda>p. 0 \<le> snd p) (strength unstableRun)"
    by (simp add: unstableRun_def list_all_iff)
  with unstable_run show ?thesis
    by (simp add: unstableRun_def last_map dryConfig_def defaultConfig_def)
qed

lemma cloudBaseAt_unsaturated:
  "(\<forall>j. 1 \<le> j \<and> j \<le> m \<longrightarrow> \<not> Fin 1 \<le> stepHumidity cfg T j)
   \<Longrightarrow> cloudBaseAt cfg T m = Fin calculationsMaxHeight"
  by (induction m) (simp_all add: cloudBaseAt.simps)

lemma cloudBaseAt_first:
  assumes "Fin 1 \<le> stepHumidity cfg T (Suc k)"
    and "\<forall>j. 1 \<le> j \<and> j \<le> k \<longrightarrow> \<not> Fin 1 \<le> stepHumidity cfg T j"
    and "crossing cfg T k \<noteq> Fin calculationsMaxHeight"
  shows "Suc k \<le> m \<Longrightarrow> cloudBaseAt cfg T m = crossing cfg T k"
proof (induction m)
  case 0
  then show ?case by simp
next
  case (Suc m)
  show ?case
  proof (cases "m = k")
    case True
    with assms(1) cloudBaseAt_unsaturated[OF assms(2)] show ?thesis
      by (simp add: cloudBaseAt.simps js_eq_def)
  next
    case False
    with Suc have "cloudBaseAt cfg T m = crossing cfg T k" by simp
    with assms(3) show ?thesis by (simp add: cloudBaseAt.simps js_eq_def)
  qed
qed

lemma crossing_not_ceiling:
  assumes lo: "stepHumidity cfg T k < Fin 1"
    and hi: "Fin 1 \<le> stepHumidity cfg T (Suc k)"
    and bot: "stepAltitude cfg k < calculationsMaxHeight"
    and top: "stepAltitude cfg (Suc k) < calculationsMaxHeight"
  shows "crossing cfg T k \<noteq> Fin calculationsMaxHeight"
proof (cases "stepHumidity cfg T k")
  case (Fin x)
  with lo have x: "x < 1" by simp
  show ?thesis
  proof (cases "stepHumidity cfg T (Suc k)")
    case (Fin y)
    with hi have y: "1 \<le> y" by simp
    define q where "q = (1 - x) / (y - x)"
    define d where "d = stepAltitude cfg (Suc k) - stepAltitude cfg k"
    from x y have q: "0 \<le> q" "q \<le> 1" by (simp_all add: q_def divide_le_eq)
    have "q * d \<le> max 0 d"
    proof (cases "0 \<le> d")
      case True
      with q have "q * d \<le> 1 * d" by (intro mult_right_mono) simp_all
      with True show ?thesis by simp
    next
      case False
      with q have "q * d \<le> 0" by (simp add: mult_le_0_iff)
      then show ?thesis by simp
    qed
    with bot top have "stepAltitude cfg k + q * d < calculationsMaxHeight"
      by (simp add: d_def max_def split: if_splits)
    moreover from x y have "y - x \<noteq> 0" by simp
    ultimately show ?thesis
      using Fin \<open>stepHumidity cfg T k = Fin x\<close>
      by (simp add: crossing_def minus_jsnum_def q_def d_def)
  next
    case PInf
    with \<open>stepHumidity cfg T k = Fin x\<close> bot show ?thesis
      by (simp add: crossing_def minus_jsnum_def)
  next
    case NInf
    with hi show ?thesis by simp
  next
    case NaN
    with hi show ?thesis by simp
  qed
next
  case PInf
  with lo show ?thesis by simp
next
  case NInf
  with hi show ?thesis
    by (cases "stepHumidity cfg T (Suc k)") (simp_all add: crossing_def minus_jsnum_def)
next
  case NaN
  with lo show ?thesis by simp
qed

text \<open>
  Claim C6. The cloud base is to be recorded once, at the first step where the
  relative humidity reaches 1.0. The program takes a cloud base equal to
  \<open>calculationsMaxHeight\<close> for "not recorded yet", so a cloud base recorded with that
  very value is recorded over by the next saturated step. That takes air saturated at
  the ground and a value that comes out as \<open>calculationsMaxHeight\<close> to the last digit;
  everywhere else the program does what the claim says, which is the lemma that
  follows: without saturation the cloud base stays \<open>calculationsMaxHeight\<close>, and the
  value computed at the first saturated step (\<open>crossing\<close>), when it is not
  \<open>calculationsMaxHeight\<close> itself, is the cloud base of the run. It is not
  \<open>calculationsMaxHeight\<close> whenever the relative humidity was below 1.0 at the level
  before.
\<close>

lemma cloudBase_first_saturation:
  assumes "getThermalData cfg ws = Some (Inr data)"
  shows "((\<forall>k. 1 \<le> k \<and> k \<le> length (strength data) \<longrightarrow>
             \<not> Fin 1 \<le> stepHumidity cfg (stepTemperature cfg ws) k)
          \<longrightarrow> cloudBase data = Fin calculationsMaxHeight)
    \<and> (\<forall>k<length (strength data).
          Fin 1 \<le> stepHumidity cfg (stepTemperature cfg ws) (Suc k)
          \<and> (\<forall>j. 1 \<le> j \<and> j \<le> k \<longrightarrow> \<not> Fin 1 \<le> stepHumidity cfg (stepTemperature cfg ws) j)
          \<longrightarrow> (crossing cfg (stepTemperature cfg ws) k \<noteq> Fin calculationsMaxHeight
                 \<longrightarrow> cloudBase data = crossing cfg (stepTemperature cfg ws) k)
             \<and> (stepHumidity cfg (stepTemperature cfg ws) k < Fin 1
                 \<longrightarrow> crossing cfg (stepTemperature cfg ws) k \<noteq> Fin calculationsMaxHeight))"
proof -
  let ?n = "length (strength data)"
  let ?T = "stepTemperature cfg ws"
  note r = run_shape(1)[OF assms]
  note cb = ran_cloudBase[OF r]
  have a: "(\<forall>k. 1 \<le> k \<and> k \<le> ?n \<longrightarrow> \<not> Fin 1 \<le> stepHumidity cfg ?T k)
          \<longrightarrow> cloudBase data = Fin calculationsMaxHeight"
    using cloudBaseAt_unsaturated[of ?n cfg ?T] cb by simp
  have b: "\<forall>k<?n. Fin 1 \<le> stepHumidity cfg ?T (Suc k)
          \<and> (\<forall>j. 1 \<le> j \<and> j \<le> k \<longrightarrow> \<not> Fin 1 \<le> stepHumidity cfg ?T j)
          \<longrightarrow> (crossing cfg ?T k \<noteq> Fin calculationsMaxHeight
                 \<longrightarrow> cloudBase data = crossing cfg ?T k)
             \<and> (stepHumidity cfg ?T k < Fin 1
                 \<longrightarrow> crossing cfg ?T k \<noteq> Fin calculationsMaxHeight)"
  proof (intro allI impI conjI)
    fix k
    assume k: "k < ?n"
      and h: "Fin 1 \<le> stepHumidity cfg ?T (Suc k)
          \<and> (\<forall>j. 1 \<le> j \<and> j \<le> k \<longrightarrow> \<not> Fin 1 \<le> stepHumidity cfg ?T j)"
    {
      assume "crossing cfg ?T k \<noteq> Fin calculationsMaxHeight"
      with h k have "cloudBaseAt cfg ?T ?n = crossing cfg ?T k"
        by (intro cloudBaseAt_first) auto
      with cb show "cloudBase data = crossing cfg ?T k" by simp
    }
    {
      assume lo: "stepHumidity cfg ?T k < Fin 1"
      from k have top: "stepAltitude cfg (Suc k) < calculationsMaxHeight"
        by (intro ran_reads(2)[OF r]) auto
      have bot: "stepAltitude cfg k < calculationsMaxHeight"
      proof (cases k)
        case 0
        then show ?thesis by (simp add: stepAltitude_def calculationsMaxHeight_def)
      next
        case (Suc j)
        with k show ?thesis by (intro ran_reads(2)[OF r]) auto
      qed
      from lo h bot top show "crossing cfg ?T k \<noteq> Fin calculationsMaxHeight"
        by (intro crossing_not_ceiling) auto
    }
  qed
  from a b show ?thesis by blast
qed

lemma cloudBase_first_saturation_humid:
  "getThermalData defaultConfig humidWeather = Some (Inr humidRun)
   \<and> Fin 1 \<le> stepHumidity defaultConfig (stepTemperature defaultConfig humidWeather) (Suc 0)
   \<and> stepHumidity defaultConfig (stepTemperature defaultConfig humidWeather) 0 < Fin 1
   \<and> crossing defaultConfig (stepTemperature defaultConfig humidWeather) 0
       \<noteq> Fin calculationsMaxHeight
   \<and> cloudBase humidRun = crossing defaultConfig (stepTemperature defaultConfig humidWeather) 0"
proof -
  let ?T = "stepTemperature defaultConfig humidWeather"
  have l: "0 < length (strength humidRun)" by (simp add: humidRun_def)
  have hi: "Fin 1 \<le> stepHumidity defaultConfig ?T (Suc 0)"
    by (simp add: step_defs humidWeather_def profile_defs formula_defs)
  have lo: "stepHumidity defaultConfig ?T 0 < Fin 1"
    by (simp add: step_defs humidWeather_def profile_defs formula_defs)
  have first: "\<forall>j. 1 \<le> j \<and> j \<le> 0 \<longrightarrow> \<not> Fin 1 \<le> stepHumidity defaultConfig ?T j"
    by simp
  from cloudBase_first_saturation[OF humid_run] l hi first
  have "(crossing defaultConfig ?T 0 \<noteq> Fin calculationsMaxHeight
          \<longrightarrow> cloudBase humidRun = crossing defaultConfig ?T 0)
      \<and> (stepHumidity defaultConfig ?T 0 < Fin 1
          \<longrightarrow> crossing defaultConfig ?T 0 \<noteq> Fin calculationsMaxHeight)"
    by blast
  with lo have "crossing defaultConfig ?T 0 \<noteq> Fin calculationsMaxHeight
      \<and> cloudBase humidRun = crossing defaultConfig ?T 0"
    by blast
  with humid_run hi lo show ?thesis by blast
qed

text \<open>
  Claim C10. At -20 degrees the saturated density is negative. Where it is negative,
  the relative humidity of a positive absolute humidity is negative, and for a ground
  absolute humidity that is not negative the test for saturation fails, so that a step
  at such a temperature leaves the cloud base as it was.
\<close>

theorem negative_saturated_density:
  "getSaturatedDensityFor (- 20) < 0
   \<and> (0 < absolute \<and> getSaturatedDensityFor temperature < 0
        \<longrightarrow> getRelativeHumidity absolute altitude pressure temperature < Fin 0)
   \<and> (0 \<le> defaultGroundAbsoluteHumidity cfg \<and> getSaturatedDensityFor tmp < 0
        \<longrightarrow> \<not> Fin 1 \<le> relHumi (fst (thermalStep cfg alt1 tmp prev impulse data))
            \<and> cloudBase (snd (snd (thermalStep cfg alt1 tmp prev impulse data)))
                = cloudBase data)"
proof (intro conjI impI)
  show "getSaturatedDensityFor (- 20) < 0"
    by (simp add: getSaturatedDensityFor_def)
next
  assume "0 < absolute \<and> getSaturatedDensityFor temperature < 0"
  then show "getRelativeHumidity absolute altitude pressure temperature < Fin 0"
    by (simp add: getRelativeHumidity_def divide_less_0_iff)
next
  assume h: "0 \<le> defaultGroundAbsoluteHumidity cfg \<and> getSaturatedDensityFor tmp < 0"
  then have "defaultGroundAbsoluteHumidity cfg / getSaturatedDensityFor tmp \<le> 0"
    by (simp add: divide_le_0_iff)
  with h show n: "\<not> Fin 1 \<le> relHumi (fst (thermalStep cfg alt1 tmp prev impulse data))"
    by (simp add: thermalStep_def Let_def getRelativeHumidity_def)
  then show "cloudBase (snd (snd (thermalStep cfg alt1 tmp prev impulse data))) = cloudBase data"
    by (simp add: thermalStep_def Let_def)
qed

theorem negative_saturated_density_witness:
  "getSaturatedDensityFor (- 20) < 0
   \<and> getRelativeHumidity 10 9500 (Fin 30000) (- 20) < Fin 0
   \<and> 0 \<le> defaultGroundAbsoluteHumidity defaultConfig
   \<and> \<not> Fin 1 \<le> relHumi (fst (thermalStep defaultConfig 9500 (- 20)
          \<lparr>l_alt = 9400, l_temp = - 19, relHumi = Fin 0\<rparr> 1 inversionRun))
   \<and> cloudBase (snd (snd (thermalStep defaultConfig 9500 (- 20)
          \<lparr>l_alt = 9400, l_temp = - 19, relHumi = Fin 0\<rparr> 1 inversionRun)))
       = cloudBase inversionRun"
proof -
  have s: "getSaturatedDensityFor (- 20) < 0"
    by (simp add: getSaturatedDensityFor_def)
  have h: "0 \<le> defaultGroundAbsoluteHumidity defaultConfig"
    by (simp add: defaultConfig_def)
  from negative_saturated_density[of 10 "- 20" 9500 "Fin 30000" defaultConfig "- 20" 9500
      "\<lparr>l_alt = 9400, l_temp = - 19, relHumi = Fin 0\<rparr>" 1 inversionRun] s h
  show ?thesis by simp
qed

end
